theory Spec2Isabelle
  imports Main "HOL-Library.AList"
begin

section \<open>Health records: data model\<close>

text \<open>
  The embedding follows \<^verbatim>\<open>backend/app/records/service.py\<close> (class
  \<^verbatim>\<open>HealthRecordsService\<close>), \<^verbatim>\<open>schemas.py\<close> and \<^verbatim>\<open>routes.py\<close>.
  A Firestore document of the collection \<^verbatim>\<open>health_records\<close> is a record with the
  fields that \<^verbatim>\<open>create_record\<close> writes; \<^verbatim>\<open>deleted_at\<close> and
  \<^verbatim>\<open>conflict_resolved_at\<close> are absent until \<^verbatim>\<open>delete_record\<close> and
  \<^verbatim>\<open>resolve_conflict\<close> add them. Every document of the collection is written by
  \<^verbatim>\<open>create_record\<close>, so the defaults of \<^verbatim>\<open>record.get("version", 0)\<close> and
  \<^verbatim>\<open>record.get("data", {})\<close> are never taken and the fields are total.
  Each reading of \<^verbatim>\<open>datetime.utcnow()\<close> is an argument of the operation, in the
  order in which the source takes the readings; the identifier that
  \<^verbatim>\<open>records_collection.document()\<close> generates is an argument of \<^verbatim>\<open>create_record\<close>.
\<close>

type_synonym doc_id = string
type_synonym timestamp = int

datatype json = JNull | JBool bool | JInt int | JStr string
  | JList "json list" | JObj "(string \<times> json) list"

type_synonym payload = "string \<rightharpoonup> json"

datatype RecordType =
  MEDICAL_HISTORY | PRESCRIPTION | LAB_REPORT | VITAL_SIGN | DIAGNOSIS | TREATMENT

fun value_of :: "RecordType \<Rightarrow> string" where
  "value_of MEDICAL_HISTORY = ''medical_history''"
| "value_of PRESCRIPTION = ''prescription''"
| "value_of LAB_REPORT = ''lab_report''"
| "value_of VITAL_SIGN = ''vital_sign''"
| "value_of DIAGNOSIS = ''diagnosis''"
| "value_of TREATMENT = ''treatment''"

record health_record =
  user_id :: string
  record_type :: string
  data :: payload
  version :: int
  created_at :: timestamp
  updated_at :: timestamp
  created_by :: string
  is_deleted :: bool
  sync_status :: string
  deleted_at :: "timestamp option"
  conflict_resolved_at :: "timestamp option"

text \<open>The dictionary \<^verbatim>\<open>update_fields\<close> of \<^verbatim>\<open>update_record\<close>.\<close>

record update_fields =
  uf_data :: payload
  uf_version :: int
  uf_updated_at :: timestamp
  uf_sync_status :: string

text \<open>The \<^verbatim>\<open>data\<close> dictionary of an audit entry, one shape per calling operation.\<close>

datatype audit_data =
  AuditCreate health_record
| AuditUpdate update_fields
| AuditSoftDelete bool
| AuditHardDelete
| AuditResolve int payload

record audit_entry =
  audit_record_id :: doc_id
  audit_action :: string
  audit_user_id :: string
  audit_data :: audit_data
  audit_timestamp :: timestamp

record ConflictResolutionRequest =
  record_id :: doc_id
  chosen_version :: int
  resolved_data :: payload

text \<open>
  The two collections of the service. A collection holds one document per identifier;
  the association list keeps the documents in the order in which a query streams them.
\<close>

record world =
  records_collection :: "(doc_id \<times> health_record) list"
  audit_collection :: "audit_entry list"

definition wf_world :: "world \<Rightarrow> bool" where
  "wf_world w = distinct (map fst (records_collection w))"

datatype error = NotFound | TypeError

section \<open>The document store\<close>

definition doc_get :: "doc_id \<Rightarrow> (doc_id \<times> health_record) list \<Rightarrow> health_record option" where
  "doc_get i recs = map_of recs i"

definition doc_set ::
  "doc_id \<Rightarrow> health_record \<Rightarrow> (doc_id \<times> health_record) list \<Rightarrow> (doc_id \<times> health_record) list" where
  "doc_set i d recs = AList.update i d recs"

text \<open>\<^verbatim>\<open>DocumentReference.update\<close> changes fields of an existing document and raises
  \<^verbatim>\<open>NotFound\<close> when there is none.\<close>

definition doc_update ::
  "doc_id \<Rightarrow> (health_record \<Rightarrow> health_record) \<Rightarrow> (doc_id \<times> health_record) list
    \<Rightarrow> error + (doc_id \<times> health_record) list" where
  "doc_update i f recs =
     (case map_of recs i of
        None \<Rightarrow> Inl NotFound
      | Some d \<Rightarrow> Inr (AList.update i (f d) recs))"

definition doc_delete :: "doc_id \<Rightarrow> (doc_id \<times> health_record) list \<Rightarrow> (doc_id \<times> health_record) list" where
  "doc_delete i recs = AList.delete i recs"

text \<open>\<^verbatim>\<open>order_by(field, direction="DESCENDING")\<close> on an integer field.\<close>

definition order_by_desc ::
  "(health_record \<Rightarrow> int) \<Rightarrow> (doc_id \<times> health_record) list \<Rightarrow> (doc_id \<times> health_record) list" where
  "order_by_desc f recs = sort_key (\<lambda>(i, d). - f d) recs"

text \<open>\<^verbatim>\<open>limit(n).offset(k)\<close>.\<close>

definition limit_offset :: "int \<Rightarrow> int \<Rightarrow> 'a list \<Rightarrow> 'a list" where
  "limit_offset n k xs = take (nat n) (drop (nat k) xs)"

section \<open>The service\<close>

definition create_audit_entry ::
  "doc_id \<Rightarrow> string \<Rightarrow> string \<Rightarrow> audit_data \<Rightarrow> timestamp \<Rightarrow> world \<Rightarrow> world" where
  "create_audit_entry rid act uid dat t w =
     w\<lparr>audit_collection := audit_collection w @
        [\<lparr>audit_record_id = rid, audit_action = act, audit_user_id = uid,
          audit_data = dat, audit_timestamp = t\<rparr>]\<rparr>"

subsection \<open>\<^verbatim>\<open>get_record\<close>\<close>

definition get_record :: "doc_id \<Rightarrow> string \<Rightarrow> world \<Rightarrow> (doc_id \<times> health_record) option" where
  "get_record rid uid w =
     (case doc_get rid (records_collection w) of
        None \<Rightarrow> None
      | Some record_data \<Rightarrow>
          if user_id record_data \<noteq> uid then None
          else Some (rid, record_data))"

subsection \<open>\<^verbatim>\<open>create_record\<close>\<close>

datatype create_result =
  CreateConflict int int
| Created doc_id health_record

definition latest_query ::
  "string \<Rightarrow> RecordType \<Rightarrow> (doc_id \<times> health_record) list \<Rightarrow> (doc_id \<times> health_record) list" where
  "latest_query uid rt recs =
     take 1 (order_by_desc version
       (filter (\<lambda>(i, d). user_id d = uid \<and> record_type d = value_of rt \<and> is_deleted d = False) recs))"

text \<open>\<^verbatim>\<open>created_by or user_id\<close>: \<^verbatim>\<open>None\<close> and the empty string are both falsy.\<close>

definition created_by_or :: "string option \<Rightarrow> string \<Rightarrow> string" where
  "created_by_or cb uid = (case cb of None \<Rightarrow> uid | Some c \<Rightarrow> if c = [] then uid else c)"

definition new_record_data ::
  "string \<Rightarrow> RecordType \<Rightarrow> payload \<Rightarrow> int \<Rightarrow> string option \<Rightarrow> timestamp \<Rightarrow> timestamp
    \<Rightarrow> health_record" where
  "new_record_data uid rt dat client_version cb t_created t_updated =
     \<lparr>user_id = uid, record_type = value_of rt, data = dat, version = client_version,
      created_at = t_created, updated_at = t_updated, created_by = created_by_or cb uid,
      is_deleted = False, sync_status = ''synced'', deleted_at = None,
      conflict_resolved_at = None\<rparr>"

definition do_create ::
  "string \<Rightarrow> RecordType \<Rightarrow> payload \<Rightarrow> int \<Rightarrow> string option \<Rightarrow> doc_id
    \<Rightarrow> timestamp \<Rightarrow> timestamp \<Rightarrow> timestamp \<Rightarrow> world \<Rightarrow> create_result \<times> world" where
  "do_create uid rt dat client_version cb new_id t_created t_updated t_audit w =
     (let record_data = new_record_data uid rt dat client_version cb t_created t_updated;
          w1 = w\<lparr>records_collection := doc_set new_id record_data (records_collection w)\<rparr>;
          w2 = create_audit_entry new_id ''create'' uid (AuditCreate record_data) t_audit w1
      in (Created new_id record_data, w2))"

definition create_record ::
  "string \<Rightarrow> RecordType \<Rightarrow> payload \<Rightarrow> int \<Rightarrow> string option \<Rightarrow> doc_id
    \<Rightarrow> timestamp \<Rightarrow> timestamp \<Rightarrow> timestamp \<Rightarrow> world \<Rightarrow> create_result \<times> world" where
  "create_record uid rt dat client_version cb new_id t_created t_updated t_audit w =
     (if client_version > 1 then
        (case latest_query uid rt (records_collection w) of
           [] \<Rightarrow> do_create uid rt dat client_version cb new_id t_created t_updated t_audit w
         | latest # _ \<Rightarrow>
             let latest_version = version (snd latest) in
             if client_version \<le> latest_version
             then (CreateConflict latest_version client_version, w)
             else do_create uid rt dat client_version cb new_id t_created t_updated t_audit w)
      else do_create uid rt dat client_version cb new_id t_created t_updated t_audit w)"

subsection \<open>\<^verbatim>\<open>list_records\<close>\<close>

record list_result =
  records :: "(doc_id \<times> health_record) list"
  total :: int
  page :: int
  page_size :: int
  has_more :: bool

definition list_filter ::
  "string \<Rightarrow> RecordType option \<Rightarrow> bool \<Rightarrow> (doc_id \<times> health_record) list
    \<Rightarrow> (doc_id \<times> health_record) list" where
  "list_filter uid rt include_deleted recs =
     (let q0 = filter (\<lambda>(i, d). user_id d = uid) recs;
          q1 = (case rt of None \<Rightarrow> q0
                | Some t \<Rightarrow> filter (\<lambda>(i, d). record_type d = value_of t) q0);
          q2 = (if \<not> include_deleted then filter (\<lambda>(i, d). is_deleted d = False) q1 else q1)
      in q2)"

text \<open>The page that the \<^verbatim>\<open>async for\<close> loop collects into \<^verbatim>\<open>records\<close>.\<close>

definition list_page ::
  "string \<Rightarrow> RecordType option \<Rightarrow> int \<Rightarrow> int \<Rightarrow> bool \<Rightarrow> world
    \<Rightarrow> (doc_id \<times> health_record) list" where
  "list_page uid rt pg pg_size include_deleted w =
     (let query = order_by_desc updated_at
                    (list_filter uid rt include_deleted (records_collection w));
          offset = (pg - 1) * pg_size
      in limit_offset pg_size offset query)"

text \<open>
  \<^verbatim>\<open>total = sum(1 async for _ in count_query.stream())\<close>: the argument is an
  asynchronous generator, which the builtin \<^verbatim>\<open>sum\<close> cannot iterate. The call raises
  \<^verbatim>\<open>TypeError\<close> whatever the stream holds.
\<close>

definition sum_async_generator :: "int list \<Rightarrow> error + int" where
  "sum_async_generator xs = Inl TypeError"

definition list_records ::
  "string \<Rightarrow> RecordType option \<Rightarrow> int \<Rightarrow> int \<Rightarrow> bool \<Rightarrow> world \<Rightarrow> error + list_result" where
  "list_records uid rt pg pg_size include_deleted w =
     (let recs = list_page uid rt pg pg_size include_deleted w;
          count_query = list_filter uid rt include_deleted (records_collection w)
      in case sum_async_generator (map (\<lambda>_. 1) count_query) of
           Inl e \<Rightarrow> Inl e
         | Inr tot \<Rightarrow>
             Inr \<lparr>records = recs, total = tot, page = pg, page_size = pg_size,
                  has_more = (pg * pg_size < tot)\<rparr>)"

subsection \<open>\<^verbatim>\<open>update_record\<close>\<close>

datatype update_result =
  Conflict doc_id int int "doc_id \<times> health_record"
| Record "doc_id \<times> health_record"

definition apply_update_fields :: "update_fields \<Rightarrow> health_record \<Rightarrow> health_record" where
  "apply_update_fields u d =
     d\<lparr>data := uf_data u, version := uf_version u, updated_at := uf_updated_at u,
       sync_status := uf_sync_status u\<rparr>"

definition update_record ::
  "doc_id \<Rightarrow> string \<Rightarrow> payload \<Rightarrow> int \<Rightarrow> timestamp \<Rightarrow> timestamp \<Rightarrow> world
    \<Rightarrow> (error + update_result option) \<times> world" where
  "update_record rid uid update_data client_version t_updated t_audit w =
     (case get_record rid uid w of
        None \<Rightarrow> (Inr None, w)
      | Some record \<Rightarrow>
          let server_version = version (snd record) in
          if client_version \<le> server_version
          then (Inr (Some (Conflict rid server_version client_version record)), w)
          else
            let upd = \<lparr>uf_data = data (snd record) ++ update_data,
                       uf_version = client_version,
                       uf_updated_at = t_updated,
                       uf_sync_status = ''synced''\<rparr>
            in (case doc_update rid (apply_update_fields upd) (records_collection w) of
                  Inl e \<Rightarrow> (Inl e, w)
                | Inr recs' \<Rightarrow>
                    let w1 = w\<lparr>records_collection := recs'\<rparr>;
                        w2 = create_audit_entry rid ''update'' uid (AuditUpdate upd) t_audit w1
                    in (Inr (map_option Record (get_record rid uid w2)), w2)))"

subsection \<open>\<^verbatim>\<open>delete_record\<close>\<close>

definition delete_record ::
  "doc_id \<Rightarrow> string \<Rightarrow> bool \<Rightarrow> timestamp \<Rightarrow> timestamp \<Rightarrow> timestamp \<Rightarrow> world
    \<Rightarrow> (error + bool) \<times> world" where
  "delete_record rid uid soft_delete t_deleted t_updated t_audit w =
     (case get_record rid uid w of
        None \<Rightarrow> (Inr False, w)
      | Some record \<Rightarrow>
          if soft_delete then
            (case doc_update rid
                    (\<lambda>d. d\<lparr>is_deleted := True, deleted_at := Some t_deleted,
                            updated_at := t_updated\<rparr>)
                    (records_collection w) of
               Inl e \<Rightarrow> (Inl e, w)
             | Inr recs' \<Rightarrow>
                 (Inr True,
                  create_audit_entry rid ''delete'' uid (AuditSoftDelete True) t_audit
                    (w\<lparr>records_collection := recs'\<rparr>)))
          else
            (Inr True,
             create_audit_entry rid ''hard_delete'' uid AuditHardDelete t_audit
               (w\<lparr>records_collection := doc_delete rid (records_collection w)\<rparr>)))"

subsection \<open>\<^verbatim>\<open>resolve_conflict\<close>\<close>

definition resolve_conflict ::
  "ConflictResolutionRequest \<Rightarrow> string \<Rightarrow> timestamp \<Rightarrow> timestamp \<Rightarrow> timestamp \<Rightarrow> world
    \<Rightarrow> (error + (doc_id \<times> health_record) option) \<times> world" where
  "resolve_conflict conflict_request uid t_updated t_resolved t_audit w =
     (case get_record (record_id conflict_request) uid w of
        None \<Rightarrow> (Inr None, w)
      | Some record \<Rightarrow>
          (case doc_update (record_id conflict_request)
                  (\<lambda>d. d\<lparr>data := resolved_data conflict_request,
                          version := version (snd record) + 1,
                          updated_at := t_updated,
                          sync_status := ''synced'',
                          conflict_resolved_at := Some t_resolved\<rparr>)
                  (records_collection w) of
             Inl e \<Rightarrow> (Inl e, w)
           | Inr recs' \<Rightarrow>
               let w2 = create_audit_entry (record_id conflict_request) ''resolve_conflict'' uid
                          (AuditResolve (chosen_version conflict_request)
                             (resolved_data conflict_request))
                          t_audit (w\<lparr>records_collection := recs'\<rparr>)
               in (Inr (get_record (record_id conflict_request) uid w2), w2)))"

subsection \<open>\<^verbatim>\<open>update_record\<close> between its suspension points\<close>

text \<open>
  \<^verbatim>\<open>update_record\<close> is a coroutine: it suspends at
  \<^verbatim>\<open>await self.get_record(...)\<close> and resumes with the record it has read, while
  other request handlers run. \<^verbatim>\<open>update_after_read\<close> is the rest of the body, from
  the assignment of \<^verbatim>\<open>record\<close> on, run on the world as it is when the coroutine
  resumes.
\<close>

definition update_after_read ::
  "doc_id \<Rightarrow> string \<Rightarrow> payload \<Rightarrow> int \<Rightarrow> timestamp \<Rightarrow> timestamp
    \<Rightarrow> (doc_id \<times> health_record) \<Rightarrow> world \<Rightarrow> (error + update_result option) \<times> world" where
  "update_after_read rid uid update_data client_version t_updated t_audit record w =
     (let server_version = version (snd record) in
      if client_version \<le> server_version
      then (Inr (Some (Conflict rid server_version client_version record)), w)
      else
        let upd = \<lparr>uf_data = data (snd record) ++ update_data,
                   uf_version = client_version,
                   uf_updated_at = t_updated,
                   uf_sync_status = ''synced''\<rparr>
        in (case doc_update rid (apply_update_fields upd) (records_collection w) of
              Inl e \<Rightarrow> (Inl e, w)
            | Inr recs' \<Rightarrow>
                let w1 = w\<lparr>records_collection := recs'\<rparr>;
                    w2 = create_audit_entry rid ''update'' uid (AuditUpdate upd) t_audit w1
                in (Inr (map_option Record (get_record rid uid w2)), w2)))"

section \<open>The route \<^verbatim>\<open>POST /medical-history\<close>\<close>

text \<open>
  The request body is validated against the schema \<^verbatim>\<open>MedicalHistoryCreate\<close> before the
  handler runs. The schema constrains \<^verbatim>\<open>title\<close> (\<^verbatim>\<open>min_length=1\<close>);
  \<^verbatim>\<open>client_version\<close> is declared \<^verbatim>\<open>int\<close> with a description only.
  \<^verbatim>\<open>datetime.isoformat\<close> is an argument of the handler.
\<close>

record MedicalHistoryCreate =
  title :: string
  description :: string
  condition :: "string option"
  diagnosis_date :: "timestamp option"
  doctor_name :: "string option"
  hospital_name :: "string option"
  attachments :: "string list"
  metadata :: "(string \<times> json) list"
  client_version :: int

definition MedicalHistoryCreate_valid :: "MedicalHistoryCreate \<Rightarrow> bool" where
  "MedicalHistoryCreate_valid r = (1 \<le> length (title r))"

datatype http_response =
  Http201 doc_id health_record
| Http409 int int
| Http422

definition opt_str :: "string option \<Rightarrow> json" where
  "opt_str x = (case x of None \<Rightarrow> JNull | Some s \<Rightarrow> JStr s)"

definition medical_history_data :: "(timestamp \<Rightarrow> string) \<Rightarrow> MedicalHistoryCreate \<Rightarrow> payload" where
  "medical_history_data isoformat r =
     [''title'' \<mapsto> JStr (title r),
      ''description'' \<mapsto> JStr (description r),
      ''condition'' \<mapsto> opt_str (condition r),
      ''diagnosis_date'' \<mapsto> opt_str (map_option isoformat (diagnosis_date r)),
      ''doctor_name'' \<mapsto> opt_str (doctor_name r),
      ''hospital_name'' \<mapsto> opt_str (hospital_name r),
      ''attachments'' \<mapsto> JList (map JStr (attachments r)),
      ''metadata'' \<mapsto> JObj (metadata r)]"

definition create_medical_history ::
  "(timestamp \<Rightarrow> string) \<Rightarrow> MedicalHistoryCreate \<Rightarrow> string \<Rightarrow> doc_id
    \<Rightarrow> timestamp \<Rightarrow> timestamp \<Rightarrow> timestamp \<Rightarrow> world \<Rightarrow> http_response \<times> world" where
  "create_medical_history isoformat r uid new_id t_created t_updated t_audit w =
     (if \<not> MedicalHistoryCreate_valid r then (Http422, w)
      else
        (case create_record uid MEDICAL_HISTORY (medical_history_data isoformat r)
                (client_version r) (Some uid) new_id t_created t_updated t_audit w of
           (CreateConflict sv cv, w') \<Rightarrow> (Http409 sv cv, w')
         | (Created i d, w') \<Rightarrow> (Http201 i d, w')))"

section \<open>The route \<^verbatim>\<open>PUT /{record_id}\<close>\<close>

text \<open>
  The query parameter is declared \<^verbatim>\<open>client_version: int = Query(..., ge=1)\<close>: a value
  below 1 is rejected with status 422 before the handler runs. An exception of the service
  becomes status 500.
\<close>

datatype update_response =
  Upd200 "doc_id \<times> health_record"
| Upd404
| Upd409 int int "doc_id \<times> health_record"
| Upd422
| Upd500

definition update_record_route ::
  "doc_id \<Rightarrow> payload \<Rightarrow> int \<Rightarrow> string \<Rightarrow> timestamp \<Rightarrow> timestamp \<Rightarrow> world
    \<Rightarrow> update_response \<times> world" where
  "update_record_route rid update_data cv uid t_updated t_audit w =
     (if \<not> 1 \<le> cv then (Upd422, w)
      else
        (case update_record rid uid update_data cv t_updated t_audit w of
           (Inl e, w') \<Rightarrow> (Upd500, w')
         | (Inr None, w') \<Rightarrow> (Upd404, w')
         | (Inr (Some (Conflict i sv cv' sd)), w') \<Rightarrow> (Upd409 sv cv' sd, w')
         | (Inr (Some (Record r)), w') \<Rightarrow> (Upd200 r, w')))"

section \<open>Sequences of calls\<close>

text \<open>
  A serial schedule: \<open>run\<close> executes the calls one after the other, each call from its
  read to its last write before the next one starts. Schedules in which a coroutine
  resumes after another call has written are built from \<^verbatim>\<open>update_after_read\<close>.
\<close>

datatype op =
  OpUpdate doc_id string payload int timestamp timestamp
| OpResolve ConflictResolutionRequest string timestamp timestamp timestamp
| OpSoftDelete doc_id string timestamp timestamp timestamp

fun step :: "op \<Rightarrow> world \<Rightarrow> world" where
  "step (OpUpdate rid uid p cv t1 t2) w = snd (update_record rid uid p cv t1 t2 w)"
| "step (OpResolve req uid t1 t2 t3) w = snd (resolve_conflict req uid t1 t2 t3 w)"
| "step (OpSoftDelete rid uid t1 t2 t3) w = snd (delete_record rid uid True t1 t2 t3 w)"

text \<open>The version of record \<open>rid\<close> that a call returns when it is an accepted write to
  that record: \<^verbatim>\<open>update_record\<close> and \<^verbatim>\<open>resolve_conflict\<close> return the stored
  record, read again after the write.\<close>

fun accepted_version :: "doc_id \<Rightarrow> op \<Rightarrow> world \<Rightarrow> int option" where
  "accepted_version rid (OpUpdate i uid p cv t1 t2) w =
     (case fst (update_record i uid p cv t1 t2 w) of
        Inr (Some (Record (j, d))) \<Rightarrow> if j = rid then Some (version d) else None
      | _ \<Rightarrow> None)"
| "accepted_version rid (OpResolve req uid t1 t2 t3) w =
     (case fst (resolve_conflict req uid t1 t2 t3 w) of
        Inr (Some (j, d)) \<Rightarrow> if j = rid then Some (version d) else None
      | _ \<Rightarrow> None)"
| "accepted_version rid (OpSoftDelete i uid t1 t2 t3) w = None"

fun run :: "op list \<Rightarrow> world \<Rightarrow> world" where
  "run [] w = w"
| "run (x # xs) w = run xs (step x w)"

fun version_trace :: "doc_id \<Rightarrow> op list \<Rightarrow> world \<Rightarrow> int list" where
  "version_trace rid [] w = []"
| "version_trace rid (x # xs) w =
     (case accepted_version rid x w of
        None \<Rightarrow> version_trace rid xs (step x w)
      | Some v \<Rightarrow> v # version_trace rid xs (step x w))"

section \<open>Notions of the specification\<close>

text \<open>The versions of the non-deleted records of one owner and one record type; the
  "latest existing version" is the greatest of them.\<close>

definition existing_versions ::
  "string \<Rightarrow> RecordType \<Rightarrow> (doc_id \<times> health_record) list \<Rightarrow> int set" where
  "existing_versions uid rt recs =
     {version d | i d. (i, d) \<in> set recs \<and> user_id d = uid \<and> record_type d = value_of rt
        \<and> \<not> is_deleted d}"

text \<open>The latest existing version of an owner and record type, if there is one.\<close>

definition latest_existing_version ::
  "string \<Rightarrow> RecordType \<Rightarrow> (doc_id \<times> health_record) list \<Rightarrow> int option" where
  "latest_existing_version uid rt recs =
     (if existing_versions uid rt recs = {} then None
      else Some (Max (existing_versions uid rt recs)))"

text \<open>The Version Guard as the specification words it: accept iff
  \<open>client_version > server_version\<close>, or no prior version exists.\<close>

definition spec_version_guard :: "int \<Rightarrow> int option \<Rightarrow> bool" where
  "spec_version_guard cv sv = (case sv of None \<Rightarrow> True | Some v \<Rightarrow> v < cv)"

section \<open>Example worlds\<close>

definition alice_doc :: health_record where
  "alice_doc = new_record_data ''alice'' MEDICAL_HISTORY [''title'' \<mapsto> JStr ''flu''] 1 None 100 100"

definition alice_world :: world where
  "alice_world = \<lparr>records_collection = [(''r1'', alice_doc)], audit_collection = []\<rparr>"

definition empty_world :: world where
  "empty_world = \<lparr>records_collection = [], audit_collection = []\<rparr>"

definition alice_world_v3 :: world where
  "alice_world_v3 =
     \<lparr>records_collection = [(''r1'', alice_doc\<lparr>version := 3\<rparr>)], audit_collection = []\<rparr>"

definition alice_world_deleted :: world where
  "alice_world_deleted =
     \<lparr>records_collection = [(''r1'', alice_doc\<lparr>is_deleted := True, deleted_at := Some 150\<rparr>)],
      audit_collection = []\<rparr>"

definition zero_version_request :: MedicalHistoryCreate where
  "zero_version_request =
     \<lparr>title = ''flu'', description = ''seasonal'', condition = None, diagnosis_date = None,
      doctor_name = None, hospital_name = None, attachments = [], metadata = [],
      client_version = 0\<rparr>"

definition example_ops :: "op list" where
  "example_ops =
     [OpUpdate ''r1'' ''alice'' [''note'' \<mapsto> JStr ''a''] 2 200 201,
      OpUpdate ''r1'' ''alice'' [''note'' \<mapsto> JStr ''b''] 2 210 211,
      OpUpdate ''r1'' ''bob'' [''note'' \<mapsto> JStr ''c''] 9 220 221,
      OpResolve \<lparr>record_id = ''r1'', chosen_version = 1, resolved_data = Map.empty\<rparr>
        ''alice'' 230 231 232,
      OpSoftDelete ''r1'' ''alice'' 240 241 242,
      OpUpdate ''r1'' ''alice'' [''note'' \<mapsto> JStr ''d''] 5 250 251]"

section \<open>Store lemmas\<close>

lemma map_of_doc_update:
  "doc_update i f recs = Inr recs' \<Longrightarrow>
     map_of recs' = (map_of recs)(i \<mapsto> f (the (map_of recs i)))"
  by (auto simp: doc_update_def update_conv' split: option.splits)

lemma doc_update_Some:
  "map_of recs i = Some d \<Longrightarrow> doc_update i f recs = Inr (AList.update i (f d) recs)"
  by (simp add: doc_update_def)

lemma get_record_audit [simp]:
  "get_record rid uid (create_audit_entry r a u d t w) = get_record rid uid w"
  by (simp add: get_record_def create_audit_entry_def)

lemma get_record_owned:
  "map_of (records_collection w) rid = Some d \<Longrightarrow> user_id d = uid
     \<Longrightarrow> get_record rid uid w = Some (rid, d)"
  by (simp add: get_record_def doc_get_def)

lemma sort_key_Nil_iff: "sort_key f xs = [] \<longleftrightarrow> xs = []"
  using length_sort[of f xs] by (metis length_0_conv)

lemma sort_key_Cons_least:
  assumes "sort_key f xs = y # ys"
  shows "y \<in> set xs \<and> (\<forall>z \<in> set xs. f y \<le> f z)"
proof -
  have "sorted (map f (y # ys))" using sorted_sort_key[of f xs] assms by simp
  then have le: "\<forall>z \<in> set (y # ys). f y \<le> f z" by auto
  have s: "set xs = set (y # ys)" using set_sort[of f xs] assms by simp
  show ?thesis using le unfolding s by simp
qed

lemma existing_versions_filter:
  "existing_versions uid rt recs =
     (version \<circ> snd) ` set (filter (\<lambda>(i, d). user_id d = uid \<and> record_type d = value_of rt
        \<and> is_deleted d = False) recs)"
  by (force simp: existing_versions_def image_iff)

lemma latest_query_Nil:
  "latest_query uid rt recs = [] \<longleftrightarrow> existing_versions uid rt recs = {}"
  unfolding existing_versions_filter latest_query_def order_by_desc_def
  by (simp add: sort_key_Nil_iff del: set_filter filter_False filter_True)

lemma latest_query_Cons:
  assumes "latest_query uid rt recs = l # ls"
  shows "version (snd l) = Max (existing_versions uid rt recs)"
proof -
  define xs where "xs = filter (\<lambda>(i, d). user_id d = uid \<and> record_type d = value_of rt
        \<and> is_deleted d = False) recs"
  let ?k = "\<lambda>(i::doc_id, d). - version d"
  obtain ys where ys: "sort_key ?k xs = l # ys"
    using assms unfolding latest_query_def order_by_desc_def xs_def
    by (cases "sort_key ?k xs") (auto simp: xs_def)
  from sort_key_Cons_least[OF ys]
  have mem: "l \<in> set xs" and le: "\<forall>z \<in> set xs. version (snd z) \<le> version (snd l)"
    by (auto simp: case_prod_beta)
  have "Max ((version \<circ> snd) ` set xs) = version (snd l)"
    using mem le by (intro Max_eqI) auto
  then show ?thesis unfolding existing_versions_filter xs_def by simp
qed

section \<open>The operations on an owned record\<close>

lemma update_record_reject:
  assumes "map_of (records_collection w) rid = Some d" and "user_id d = uid"
    and "cv \<le> version d"
  shows "update_record rid uid patch cv t1 t2 w
           = (Inr (Some (Conflict rid (version d) cv (rid, d))), w)"
  using assms get_record_owned[OF assms(1,2)]
  by (simp add: update_record_def Let_def)

lemma update_record_accept:
  assumes "map_of (records_collection w) rid = Some d" and "user_id d = uid"
    and "version d < cv"
  shows "update_record rid uid patch cv t1 t2 w
           = (Inr (Some (Record (rid, d\<lparr>data := data d ++ patch, version := cv,
                  updated_at := t1, sync_status := ''synced''\<rparr>))),
              w\<lparr>records_collection := AList.update rid
                    (d\<lparr>data := data d ++ patch, version := cv,
                       updated_at := t1, sync_status := ''synced''\<rparr>) (records_collection w),
                audit_collection := audit_collection w @
                   [\<lparr>audit_record_id = rid, audit_action = ''update'', audit_user_id = uid,
                     audit_data = AuditUpdate \<lparr>uf_data = data d ++ patch, uf_version = cv,
                        uf_updated_at = t1, uf_sync_status = ''synced''\<rparr>,
                     audit_timestamp = t2\<rparr>]\<rparr>)"
  using assms get_record_owned[OF assms(1,2)]
  by (simp add: update_record_def Let_def doc_update_Some apply_update_fields_def
        get_record_def doc_get_def create_audit_entry_def update_conv')

lemma update_record_absent:
  "get_record rid uid w = None \<Longrightarrow> update_record rid uid patch cv t1 t2 w = (Inr None, w)"
  by (simp add: update_record_def)

lemma resolve_conflict_owned:
  assumes "map_of (records_collection w) (record_id req) = Some d" and "user_id d = uid"
  shows "resolve_conflict req uid t1 t2 t3 w
           = (Inr (Some (record_id req,
                 d\<lparr>data := resolved_data req, version := version d + 1, updated_at := t1,
                    sync_status := ''synced'', conflict_resolved_at := Some t2\<rparr>)),
              w\<lparr>records_collection := AList.update (record_id req)
                    (d\<lparr>data := resolved_data req, version := version d + 1, updated_at := t1,
                       sync_status := ''synced'', conflict_resolved_at := Some t2\<rparr>)
                    (records_collection w),
                audit_collection := audit_collection w @
                   [\<lparr>audit_record_id = record_id req, audit_action = ''resolve_conflict'',
                     audit_user_id = uid,
                     audit_data = AuditResolve (chosen_version req) (resolved_data req),
                     audit_timestamp = t3\<rparr>]\<rparr>)"
  using assms get_record_owned[OF assms(1,2)]
  by (simp add: resolve_conflict_def Let_def doc_update_Some
        get_record_def doc_get_def create_audit_entry_def update_conv')

lemma resolve_conflict_absent:
  "get_record (record_id req) uid w = None
     \<Longrightarrow> resolve_conflict req uid t1 t2 t3 w = (Inr None, w)"
  by (simp add: resolve_conflict_def)

lemma delete_record_soft_owned:
  assumes "map_of (records_collection w) rid = Some d" and "user_id d = uid"
  shows "delete_record rid uid True t1 t2 t3 w
           = (Inr True,
              w\<lparr>records_collection := AList.update rid
                    (d\<lparr>is_deleted := True, deleted_at := Some t1, updated_at := t2\<rparr>)
                    (records_collection w),
                audit_collection := audit_collection w @
                   [\<lparr>audit_record_id = rid, audit_action = ''delete'', audit_user_id = uid,
                     audit_data = AuditSoftDelete True, audit_timestamp = t3\<rparr>]\<rparr>)"
  using assms get_record_owned[OF assms(1,2)]
  by (simp add: delete_record_def doc_update_Some create_audit_entry_def)

lemma delete_record_absent:
  "get_record rid uid w = None \<Longrightarrow> delete_record rid uid s t1 t2 t3 w = (Inr False, w)"
  by (simp add: delete_record_def)

lemma do_create_props:
  "do_create uid rt dat cv cb new_id t1 t2 t3 w =
     (Created new_id (new_record_data uid rt dat cv cb t1 t2),
      w\<lparr>records_collection := AList.update new_id (new_record_data uid rt dat cv cb t1 t2)
            (records_collection w),
        audit_collection := audit_collection w @
          [\<lparr>audit_record_id = new_id, audit_action = ''create'', audit_user_id = uid,
            audit_data = AuditCreate (new_record_data uid rt dat cv cb t1 t2),
            audit_timestamp = t3\<rparr>]\<rparr>)"
  by (simp add: do_create_def Let_def doc_set_def create_audit_entry_def)

lemma create_record_cases:
  "create_record uid rt dat cv cb new_id t1 t2 t3 w =
     (if 1 < cv \<and> existing_versions uid rt (records_collection w) \<noteq> {}
          \<and> cv \<le> Max (existing_versions uid rt (records_collection w))
      then (CreateConflict (Max (existing_versions uid rt (records_collection w))) cv, w)
      else do_create uid rt dat cv cb new_id t1 t2 t3 w)"
proof (cases "latest_query uid rt (records_collection w)")
  case Nil
  then show ?thesis
    using latest_query_Nil[of uid rt "records_collection w"]
    by (simp add: create_record_def)
next
  case (Cons l ls)
  then have ne: "existing_versions uid rt (records_collection w) \<noteq> {}"
    using latest_query_Nil[of uid rt "records_collection w"] by simp
  show ?thesis
    using Cons ne latest_query_Cons[OF Cons]
    by (simp add: create_record_def Let_def)
qed

lemma distinct_alist_unique:
  "distinct (map fst recs) \<Longrightarrow> (i, x) \<in> set recs \<Longrightarrow> map_of recs i = Some x"
  by simp

lemma list_page_subset:
  "set (list_page u rt pg ps incl w) \<subseteq> set (list_filter u rt incl (records_collection w))"
  by (auto simp: list_page_def Let_def limit_offset_def order_by_desc_def
        dest!: in_set_takeD in_set_dropD)

lemma list_records_raises: "list_records u rt pg ps incl w = Inl TypeError"
  by (simp add: list_records_def sum_async_generator_def Let_def)

lemma list_filter_not_deleted:
  "(i, x) \<in> set (list_filter u rt False recs) \<Longrightarrow> (i, x) \<in> set recs \<and> \<not> is_deleted x"
  by (auto simp: list_filter_def Let_def split: option.splits)

lemma list_page_excludes_deleted:
  assumes "distinct (map fst (records_collection w))"
    and "map_of (records_collection w) rid = Some d" and "is_deleted d"
  shows "rid \<notin> fst ` set (list_page u rt pg ps False w)"
proof
  assume "rid \<in> fst ` set (list_page u rt pg ps False w)"
  then obtain x where "(rid, x) \<in> set (list_page u rt pg ps False w)" by auto
  then have "(rid, x) \<in> set (list_filter u rt False (records_collection w))"
    using list_page_subset by blast
  then have m: "(rid, x) \<in> set (records_collection w)" and nd: "\<not> is_deleted x"
    using list_filter_not_deleted by blast+
  from distinct_alist_unique[OF assms(1) m] assms(2) have "x = d" by simp
  with nd assms(3) show False by simp
qed

lemma alice_doc_fields:
  "user_id alice_doc = ''alice''" "version alice_doc = 1"
  "data alice_doc = [''title'' \<mapsto> JStr ''flu'']" "is_deleted alice_doc = False"
  "record_type alice_doc = ''medical_history''"
  by (simp_all add: alice_doc_def new_record_data_def)

lemma existing_versions_single:
  "existing_versions uid rt [(i, d)] =
     (if user_id d = uid \<and> record_type d = value_of rt \<and> \<not> is_deleted d
      then {version d} else {})"
  by (auto simp: existing_versions_def)

lemma get_record_SomeD:
  "get_record i uid w = Some r
     \<Longrightarrow> \<exists>di. r = (i, di) \<and> map_of (records_collection w) i = Some di \<and> user_id di = uid"
  by (auto simp: get_record_def doc_get_def split: option.splits if_splits)

lemma step_version:
  assumes "map_of (records_collection w) rid = Some d"
  shows "(accepted_version rid x w = None
            \<and> (\<exists>d'. map_of (records_collection (step x w)) rid = Some d'
                    \<and> version d' = version d))
       \<or> (\<exists>v d'. accepted_version rid x w = Some v \<and> version d < v
            \<and> map_of (records_collection (step x w)) rid = Some d' \<and> version d' = v)"
proof (cases x)
  case (OpUpdate i uid p cv t1 t2)
  show ?thesis
  proof (cases "get_record i uid w")
    case None
    then show ?thesis
      using assms OpUpdate by (simp add: update_record_absent)
  next
    case (Some r)
    then obtain di where di: "map_of (records_collection w) i = Some di" "user_id di = uid"
      using get_record_SomeD by blast
    show ?thesis
    proof (cases "cv \<le> version di")
      case True
      then show ?thesis
        using assms OpUpdate by (simp add: update_record_reject[OF di])
    next
      case False
      then have lt: "version di < cv" by simp
      note e = update_record_accept[OF di lt, of p t1 t2]
      show ?thesis
      proof (cases "i = rid")
        case True
        then have dd: "di = d" using assms di(1) by simp
        show ?thesis
          using lt[unfolded dd] by (simp add: OpUpdate True e[unfolded True dd] update_conv')
      next
        case False
        then show ?thesis using assms by (simp add: OpUpdate e update_conv')
      qed
    qed
  qed
next
  case (OpResolve req uid t1 t2 t3)
  show ?thesis
  proof (cases "get_record (record_id req) uid w")
    case None
    then show ?thesis
      using assms OpResolve by (simp add: resolve_conflict_absent)
  next
    case (Some r)
    then obtain di where di: "map_of (records_collection w) (record_id req) = Some di"
        "user_id di = uid"
      using get_record_SomeD by blast
    note e = resolve_conflict_owned[OF di, of t1 t2 t3]
    show ?thesis
    proof (cases "record_id req = rid")
      case True
      then have dd: "di = d" using assms di(1) by simp
      show ?thesis
        by (simp add: OpResolve True e[unfolded True dd] update_conv')
    next
      case False
      then show ?thesis using assms by (simp add: OpResolve e update_conv')
    qed
  qed
next
  case (OpSoftDelete i uid t1 t2 t3)
  show ?thesis
  proof (cases "get_record i uid w")
    case None
    then show ?thesis
      using assms OpSoftDelete by (simp add: delete_record_absent)
  next
    case (Some r)
    then obtain di where di: "map_of (records_collection w) i = Some di" "user_id di = uid"
      using get_record_SomeD by blast
    note e = delete_record_soft_owned[OF di, of t1 t2 t3]
    show ?thesis
    proof (cases "i = rid")
      case True
      then have dd: "di = d" using assms di(1) by simp
      show ?thesis
        by (simp add: OpSoftDelete True e[unfolded True dd] update_conv')
    next
      case False
      then show ?thesis using assms by (simp add: OpSoftDelete e update_conv')
    qed
  qed
qed

lemma update_record_phases:
  "update_record rid uid p cv t1 t2 w =
     (case get_record rid uid w of
        None \<Rightarrow> (Inr None, w)
      | Some record \<Rightarrow> update_after_read rid uid p cv t1 t2 record w)"
  by (simp add: update_record_def update_after_read_def split: option.splits)

lemma update_after_read_accept:
  assumes "map_of (records_collection w) rid = Some d0" and "user_id d0 = uid"
    and "version d < cv"
  shows "update_after_read rid uid p cv t1 t2 (rid, d) w
           = (Inr (Some (Record (rid, d0\<lparr>data := data d ++ p, version := cv,
                  updated_at := t1, sync_status := ''synced''\<rparr>))),
              w\<lparr>records_collection := AList.update rid
                    (d0\<lparr>data := data d ++ p, version := cv,
                       updated_at := t1, sync_status := ''synced''\<rparr>) (records_collection w),
                audit_collection := audit_collection w @
                   [\<lparr>audit_record_id = rid, audit_action = ''update'', audit_user_id = uid,
                     audit_data = AuditUpdate \<lparr>uf_data = data d ++ p, uf_version = cv,
                        uf_updated_at = t1, uf_sync_status = ''synced''\<rparr>,
                     audit_timestamp = t2\<rparr>]\<rparr>)"
  using assms
  by (simp add: update_after_read_def Let_def doc_update_Some apply_update_fields_def
        get_record_def doc_get_def create_audit_entry_def update_conv')

lemma wf_world_empty: "wf_world empty_world"
  by (simp add: wf_world_def empty_world_def)

lemma wf_world_create_record:
  "wf_world w \<Longrightarrow> wf_world (snd (create_record uid rt dat cv cb new_id t1 t2 t3 w))"
  by (simp add: create_record_cases do_create_props wf_world_def distinct_update)

lemma wf_world_update_record:
  "wf_world w \<Longrightarrow> wf_world (snd (update_record rid uid p cv t1 t2 w))"
  by (simp add: update_record_def doc_update_def create_audit_entry_def wf_world_def
      distinct_update Let_def split: option.splits)

lemma wf_world_resolve_conflict:
  "wf_world w \<Longrightarrow> wf_world (snd (resolve_conflict req uid t1 t2 t3 w))"
  by (simp add: resolve_conflict_def doc_update_def create_audit_entry_def wf_world_def
      distinct_update Let_def split: option.splits)

lemma wf_world_delete_record:
  "wf_world w \<Longrightarrow> wf_world (snd (delete_record rid uid soft t1 t2 t3 w))"
  by (simp add: delete_record_def doc_update_def doc_delete_def create_audit_entry_def
      wf_world_def distinct_update distinct_delete split: option.splits)

section \<open>Reading a record\<close>

text \<open>
  C7. \<^verbatim>\<open>get_record\<close> returns the record exactly when the document exists and its
  \<^verbatim>\<open>user_id\<close> is the caller. A world where the document is absent and a world where
  it belongs to another owner give the caller the same result, \<^verbatim>\<open>None\<close>.
\<close>

theorem get_record_owner_only:
  "(get_record rid uid w = Some r
      \<longleftrightarrow> (fst r = rid \<and> map_of (records_collection w) rid = Some (snd r)
           \<and> user_id (snd r) = uid))
   \<and> (map_of (records_collection w1) rid = None
        \<and> map_of (records_collection w2) rid = Some d \<and> user_id d \<noteq> uid
        \<longrightarrow> get_record rid uid w1 = None \<and> get_record rid uid w2 = None
            \<and> get_record rid uid w1 = get_record rid uid w2)"
  by (auto simp: get_record_def doc_get_def split: option.splits)

theorem get_record_owner_only_witness:
  "get_record ''r1'' ''alice'' alice_world = Some (''r1'', alice_doc)
   \<and> get_record ''r1'' ''bob'' empty_world = None
   \<and> get_record ''r1'' ''bob'' alice_world = None"
proof -
  have h1: "map_of (records_collection alice_world) ''r1'' = Some alice_doc
            \<and> user_id alice_doc = ''alice''"
    by (simp add: alice_world_def alice_doc_def new_record_data_def)
  have h2: "map_of (records_collection empty_world) ''r1'' = None
            \<and> map_of (records_collection alice_world) ''r1'' = Some alice_doc
            \<and> user_id alice_doc \<noteq> ''bob''"
    by (simp add: alice_world_def empty_world_def alice_doc_def new_record_data_def)
  show ?thesis
    using h1 h2
      get_record_owner_only [of "''r1''" "''alice''" alice_world "(''r1'', alice_doc)"
         empty_world alice_world alice_doc]
      get_record_owner_only [of "''r1''" "''bob''" alice_world "(''r1'', alice_doc)"
         empty_world alice_world alice_doc]
    by simp
qed

section \<open>Updating a record\<close>

text \<open>
  C1. An update of an existing record by its owner: when \<open>client_version\<close> is at most the
  stored version the result is a conflict carrying the server version, the client version
  and the whole current record, and the world is unchanged; otherwise the patch is merged
  over the stored payload (keys of the patch win), the stored version becomes
  \<open>client_version\<close>, \<open>updated_at\<close> becomes the clock reading, no other document changes,
  and exactly one audit entry with action \<open>update\<close> is appended.
\<close>

theorem update_record_conflict_or_merge:
  assumes "map_of (records_collection w) rid = Some d" and "user_id d = uid"
  shows "(cv \<le> version d \<longrightarrow>
            update_record rid uid patch cv t_updated t_audit w
              = (Inr (Some (Conflict rid (version d) cv (rid, d))), w))
       \<and> (version d < cv \<longrightarrow>
            (let d' = d\<lparr>data := data d ++ patch, version := cv, updated_at := t_updated,
                        sync_status := ''synced''\<rparr>;
                 res = update_record rid uid patch cv t_updated t_audit w
             in fst res = Inr (Some (Record (rid, d')))
              \<and> map_of (records_collection (snd res))
                  = (map_of (records_collection w))(rid \<mapsto> d')
              \<and> audit_collection (snd res) = audit_collection w @
                   [\<lparr>audit_record_id = rid, audit_action = ''update'', audit_user_id = uid,
                     audit_data = AuditUpdate \<lparr>uf_data = data d ++ patch, uf_version = cv,
                        uf_updated_at = t_updated, uf_sync_status = ''synced''\<rparr>,
                     audit_timestamp = t_audit\<rparr>]))"
  using update_record_reject[OF assms, of cv patch t_updated t_audit]
    update_record_accept[OF assms, of cv patch t_updated t_audit]
  by (simp add: Let_def update_conv')

theorem update_record_conflict_or_merge_witness:
  "update_record ''r1'' ''alice'' [''note'' \<mapsto> JStr ''x''] 1 200 201 alice_world
     = (Inr (Some (Conflict ''r1'' 1 1 (''r1'', alice_doc))), alice_world)
   \<and> fst (update_record ''r1'' ''alice'' [''note'' \<mapsto> JStr ''x''] 2 200 201 alice_world)
     = Inr (Some (Record (''r1'',
         alice_doc\<lparr>data := [''title'' \<mapsto> JStr ''flu'', ''note'' \<mapsto> JStr ''x''],
           version := 2, updated_at := 200, sync_status := ''synced''\<rparr>)))"
proof -
  have h: "map_of (records_collection alice_world) ''r1'' = Some alice_doc"
    by (simp add: alice_world_def)
  have u: "user_id alice_doc = ''alice''" by (simp add: alice_doc_fields)
  show ?thesis
    using update_record_conflict_or_merge [OF h u, of 1 "[''note'' \<mapsto> JStr ''x'']" 200 201]
      update_record_conflict_or_merge [OF h u, of 2 "[''note'' \<mapsto> JStr ''x'']" 200 201]
    by (simp add: alice_doc_fields Let_def)
qed

section \<open>Creating a record\<close>

text \<open>
  C2. A create call: when \<open>client_version > 1\<close>, a non-deleted record of the same owner
  and record type exists and \<open>client_version\<close> is at most the greatest version among
  them, the result is a conflict carrying that version and \<open>client_version\<close>, and the
  world is unchanged. In every other case a record with \<open>version = client_version\<close> is
  stored under the new identifier and exactly one audit entry with action \<open>create\<close> is
  appended.
\<close>

theorem create_record_shadow_check:
  "(1 < cv \<and> existing_versions uid rt (records_collection w) \<noteq> {}
      \<and> cv \<le> Max (existing_versions uid rt (records_collection w))
     \<longrightarrow> create_record uid rt dat cv cb new_id t1 t2 t3 w
           = (CreateConflict (Max (existing_versions uid rt (records_collection w))) cv, w))
   \<and> (\<not> (1 < cv \<and> existing_versions uid rt (records_collection w) \<noteq> {}
          \<and> cv \<le> Max (existing_versions uid rt (records_collection w)))
     \<longrightarrow> (let res = create_record uid rt dat cv cb new_id t1 t2 t3 w;
              d = new_record_data uid rt dat cv cb t1 t2
          in fst res = Created new_id d
           \<and> version d = cv
           \<and> map_of (records_collection (snd res))
               = (map_of (records_collection w))(new_id \<mapsto> d)
           \<and> audit_collection (snd res) = audit_collection w @
                [\<lparr>audit_record_id = new_id, audit_action = ''create'', audit_user_id = uid,
                  audit_data = AuditCreate d, audit_timestamp = t3\<rparr>]))"
  by (simp add: create_record_cases do_create_props Let_def update_conv' new_record_data_def)

theorem create_record_shadow_check_witness:
  "create_record ''alice'' MEDICAL_HISTORY Map.empty 2 None ''r2'' 300 300 301 alice_world_v3
     = (CreateConflict 3 2, alice_world_v3)
   \<and> fst (create_record ''alice'' MEDICAL_HISTORY Map.empty 2 None ''r2'' 300 300 301 alice_world)
     = Created ''r2'' (new_record_data ''alice'' MEDICAL_HISTORY Map.empty 2 None 300 300)"
proof -
  have v3: "existing_versions ''alice'' MEDICAL_HISTORY (records_collection alice_world_v3) = {3}"
    by (simp add: alice_world_v3_def existing_versions_single alice_doc_fields)
  have v1: "existing_versions ''alice'' MEDICAL_HISTORY (records_collection alice_world) = {1}"
    by (simp add: alice_world_def existing_versions_single alice_doc_fields)
  show ?thesis
    using create_record_shadow_check
        [of 2 "''alice''" MEDICAL_HISTORY alice_world_v3 Map.empty None "''r2''" 300 300 301]
      create_record_shadow_check
        [of 2 "''alice''" MEDICAL_HISTORY alice_world Map.empty None "''r2''" 300 300 301]
    by (simp add: v3 v1 Let_def)
qed

section \<open>The version guard in create and in update\<close>

text \<open>
  C3, counterexample. Alice has one non-deleted medical-history record with version 1. A
  second create for the same owner and type with \<open>client_version = 1\<close> is not a conflict
  with \<open>server_version = 1\<close>, although the guard of the specification rejects version 1
  against version 1: \<^verbatim>\<open>create_record\<close> runs its check only \<^verbatim>\<open>if client_version > 1\<close>
  and here stores the second record.
\<close>

theorem create_ignores_guard_at_version_one:
  "existing_versions ''alice'' MEDICAL_HISTORY (records_collection alice_world) = {1}
   \<and> spec_version_guard 1 (latest_existing_version ''alice'' MEDICAL_HISTORY
        (records_collection alice_world)) = False
   \<and> fst (create_record ''alice'' MEDICAL_HISTORY Map.empty 1 None ''r2'' 300 300 301 alice_world)
       \<noteq> CreateConflict 1 1
   \<and> fst (create_record ''alice'' MEDICAL_HISTORY Map.empty 1 None ''r2'' 300 300 301 alice_world)
       = Created ''r2'' (new_record_data ''alice'' MEDICAL_HISTORY Map.empty 1 None 300 300)"
proof -
  have v1: "existing_versions ''alice'' MEDICAL_HISTORY (records_collection alice_world) = {1}"
    by (simp add: alice_world_def existing_versions_single alice_doc_fields)
  show ?thesis
    by (simp add: v1 spec_version_guard_def latest_existing_version_def create_record_def
        do_create_def Let_def)
qed

text \<open>
  C3, as the code has it. \<^verbatim>\<open>update_record\<close> on an owned record accepts exactly when the
  guard of the specification accepts \<open>client_version\<close> against the stored version.
  \<^verbatim>\<open>create_record\<close>, on any store, runs its check only when \<open>client_version > 1\<close>: for
  \<open>client_version \<ge> 1\<close> it accepts exactly when \<open>client_version = 1\<close> or the guard accepts
  \<open>client_version\<close> against the latest existing version of the owner and type (no such
  version: accept). A create with \<open>client_version = 1\<close> always stores the record.
\<close>

theorem version_guard_update_and_create:
  "(map_of (records_collection w) rid = Some d \<and> user_id d = owner \<longrightarrow>
      ((\<exists>r. fst (update_record rid owner patch cv t1 t2 w) = Inr (Some (Record r)))
         \<longleftrightarrow> spec_version_guard cv (Some (version d))))
   \<and> (1 \<le> cc \<longrightarrow>
      ((\<exists>i r. fst (create_record uid rt dat cc cb new_id t3 t4 t5 wc) = Created i r)
         \<longleftrightarrow> (cc = 1 \<or> spec_version_guard cc
                (latest_existing_version uid rt (records_collection wc)))))
   \<and> fst (create_record uid rt dat 1 cb new_id t3 t4 t5 wc)
       = Created new_id (new_record_data uid rt dat 1 cb t3 t4)"
proof -
  have u: "map_of (records_collection w) rid = Some d \<and> user_id d = owner \<longrightarrow>
      ((\<exists>r. fst (update_record rid owner patch cv t1 t2 w) = Inr (Some (Record r)))
         \<longleftrightarrow> spec_version_guard cv (Some (version d)))"
  proof
    assume a: "map_of (records_collection w) rid = Some d \<and> user_id d = owner"
    then have m: "map_of (records_collection w) rid = Some d" and o: "user_id d = owner"
      by simp_all
    show "(\<exists>r. fst (update_record rid owner patch cv t1 t2 w) = Inr (Some (Record r)))
            \<longleftrightarrow> spec_version_guard cv (Some (version d))"
    proof (cases "cv \<le> version d")
      case True
      then show ?thesis
        using update_record_reject[OF m o True, of patch t1 t2]
        by (simp add: spec_version_guard_def)
    next
      case False
      then have lt: "version d < cv" by simp
      show ?thesis
        using update_record_accept[OF m o lt, of patch t1 t2] lt
        by (simp add: spec_version_guard_def)
    qed
  qed
  have c: "1 \<le> cc \<longrightarrow>
      ((\<exists>i r. fst (create_record uid rt dat cc cb new_id t3 t4 t5 wc) = Created i r)
         \<longleftrightarrow> (cc = 1 \<or> spec_version_guard cc
                (latest_existing_version uid rt (records_collection wc))))"
    by (auto simp: create_record_cases do_create_props spec_version_guard_def
        latest_existing_version_def)
  have o: "fst (create_record uid rt dat 1 cb new_id t3 t4 t5 wc)
       = Created new_id (new_record_data uid rt dat 1 cb t3 t4)"
    by (simp add: create_record_cases do_create_props)
  from u c o show ?thesis by (intro conjI)
qed

theorem version_guard_update_and_create_witness:
  "(\<exists>r. fst (update_record ''r1'' ''alice'' Map.empty 2 200 201 alice_world) = Inr (Some (Record r)))
   \<and> (\<exists>i r. fst (create_record ''alice'' MEDICAL_HISTORY Map.empty 2 None ''r2'' 300 300 301
                empty_world) = Created i r)
   \<and> \<not> (\<exists>i r. fst (create_record ''alice'' MEDICAL_HISTORY Map.empty 2 None ''r2'' 300 300 301
                alice_world_v3) = Created i r)
   \<and> fst (create_record ''alice'' MEDICAL_HISTORY Map.empty 1 None ''r2'' 300 300 301
                alice_world)
       = Created ''r2'' (new_record_data ''alice'' MEDICAL_HISTORY Map.empty 1 None 300 300)"
proof -
  have h: "map_of (records_collection alice_world) ''r1'' = Some alice_doc
           \<and> user_id alice_doc = ''alice''"
    by (simp add: alice_world_def alice_doc_fields)
  have v3: "existing_versions ''alice'' MEDICAL_HISTORY (records_collection alice_world_v3) = {3}"
    by (simp add: alice_world_v3_def existing_versions_single alice_doc_fields)
  have v0: "existing_versions ''alice'' MEDICAL_HISTORY (records_collection empty_world) = {}"
    by (simp add: empty_world_def existing_versions_def)
  have c2: "(1::int) \<le> 2" by simp
  note t1 = version_guard_update_and_create
      [where w = alice_world and rid = "''r1''" and d = alice_doc and owner = "''alice''"
         and patch = Map.empty and cv = 2 and ?t1.0 = 200 and ?t2.0 = 201,
       THEN conjunct1, rule_format, OF h]
  note t2 = version_guard_update_and_create
      [where cc = 2 and uid = "''alice''" and rt = MEDICAL_HISTORY and dat = Map.empty
         and cb = None and new_id = "''r2''" and ?t3.0 = 300 and ?t4.0 = 300 and ?t5.0 = 301
         and wc = empty_world,
       THEN conjunct2, THEN conjunct1, rule_format, OF c2]
  note t3 = version_guard_update_and_create
      [where cc = 2 and uid = "''alice''" and rt = MEDICAL_HISTORY and dat = Map.empty
         and cb = None and new_id = "''r2''" and ?t3.0 = 300 and ?t4.0 = 300 and ?t5.0 = 301
         and wc = alice_world_v3,
       THEN conjunct2, THEN conjunct1, rule_format, OF c2]
  note t4 = version_guard_update_and_create
      [where uid = "''alice''" and rt = MEDICAL_HISTORY and dat = Map.empty
         and cb = None and new_id = "''r2''" and ?t3.0 = 300 and ?t4.0 = 300 and ?t5.0 = 301
         and wc = alice_world,
       THEN conjunct2, THEN conjunct2]
  show ?thesis
    using t1 t2 t3 t4
    by (simp add: spec_version_guard_def latest_existing_version_def v3 v0 alice_doc_fields)
qed

section \<open>Resolving a conflict\<close>

text \<open>
  C4. \<^verbatim>\<open>resolve_conflict\<close> on an existing record of the caller returns the stored record,
  never a conflict or an error: the version is the previous version plus one whatever
  \<open>chosen_version\<close> is, the payload is \<open>resolved_data\<close>, \<open>sync_status\<close> is
  \<open>synced\<close>, \<open>conflict_resolved_at\<close> is set, no other document changes, and one audit
  entry with action \<open>resolve_conflict\<close> holding \<open>chosen_version\<close> and the final payload
  is appended.
\<close>

theorem resolve_conflict_always_succeeds:
  assumes "map_of (records_collection w) (record_id req) = Some d" and "user_id d = uid"
  shows "(let d' = d\<lparr>data := resolved_data req, version := version d + 1,
                     updated_at := t_updated, sync_status := ''synced'',
                     conflict_resolved_at := Some t_resolved\<rparr>;
              res = resolve_conflict req uid t_updated t_resolved t_audit w
          in fst res = Inr (Some (record_id req, d'))
           \<and> version d' = version d + 1
           \<and> map_of (records_collection (snd res))
               = (map_of (records_collection w))(record_id req \<mapsto> d')
           \<and> audit_collection (snd res) = audit_collection w @
                [\<lparr>audit_record_id = record_id req, audit_action = ''resolve_conflict'',
                  audit_user_id = uid,
                  audit_data = AuditResolve (chosen_version req) (resolved_data req),
                  audit_timestamp = t_audit\<rparr>])"
  using resolve_conflict_owned[OF assms, of t_updated t_resolved t_audit]
  by (simp add: Let_def update_conv')

theorem resolve_conflict_always_succeeds_witness:
  "fst (resolve_conflict \<lparr>record_id = ''r1'', chosen_version = 7,
           resolved_data = [''title'' \<mapsto> JStr ''cold'']\<rparr> ''alice'' 400 401 402 alice_world)
     = Inr (Some (''r1'', alice_doc\<lparr>data := [''title'' \<mapsto> JStr ''cold''], version := 2,
                     updated_at := 400, sync_status := ''synced'',
                     conflict_resolved_at := Some 401\<rparr>))"
proof -
  have h: "map_of (records_collection alice_world)
             (record_id \<lparr>record_id = ''r1'', chosen_version = 7,
                resolved_data = [''title'' \<mapsto> JStr ''cold'']\<rparr>) = Some alice_doc"
    by (simp add: alice_world_def)
  have u: "user_id alice_doc = ''alice''" by (simp add: alice_doc_fields)
  show ?thesis
    using resolve_conflict_always_succeeds
        [OF h u, where t_updated = 400 and t_resolved = 401 and t_audit = 402]
    by (simp add: Let_def alice_doc_fields)
qed

section \<open>Versions along a sequence of calls\<close>

text \<open>
  C5, counterexample. Alice's record has version 1. Two update coroutines both read it.
  The first resumes with \<open>client_version = 5\<close>, is accepted and stores version 5. The
  second resumes with the record it has read (version 1) and \<open>client_version = 2\<close>: it is
  accepted too, and the stored version goes from 5 down to 2.
\<close>

theorem interleaved_update_lowers_version:
  "get_record ''r1'' ''alice'' alice_world = Some (''r1'', alice_doc)
   \<and> version alice_doc = 1
   \<and> fst (update_after_read ''r1'' ''alice'' Map.empty 5 800 801 (''r1'', alice_doc)
            alice_world)
       = Inr (Some (Record (''r1'',
           alice_doc\<lparr>data := [''title'' \<mapsto> JStr ''flu''], version := 5,
             updated_at := 800, sync_status := ''synced''\<rparr>)))
   \<and> fst (update_after_read ''r1'' ''alice'' Map.empty 2 802 803 (''r1'', alice_doc)
            (snd (update_after_read ''r1'' ''alice'' Map.empty 5 800 801
                    (''r1'', alice_doc) alice_world)))
       = Inr (Some (Record (''r1'',
           alice_doc\<lparr>data := [''title'' \<mapsto> JStr ''flu''], version := 2,
             updated_at := 802, sync_status := ''synced''\<rparr>)))
   \<and> map_option version (map_of (records_collection
        (snd (update_after_read ''r1'' ''alice'' Map.empty 2 802 803 (''r1'', alice_doc)
            (snd (update_after_read ''r1'' ''alice'' Map.empty 5 800 801
                    (''r1'', alice_doc) alice_world))))) ''r1'') = Some 2"
  by (simp add: alice_world_def alice_doc_def new_record_data_def
        update_after_read_def get_record_def doc_get_def
        doc_update_def create_audit_entry_def apply_update_fields_def Let_def)

text \<open>
  C5, as the code has it. When the calls run one after the other (\<open>run\<close>: each call reads
  and writes before the next call starts), then along any sequence of update,
  resolve-conflict and soft-delete calls, by any callers on any records, the versions that
  the accepted writes to one record store form, after the initial version, a strictly
  increasing list: every accepted write stores a greater version than all before it, no
  version is repeated, and the version stored at the end is the last of the list. An
  update that resumes with a record read earlier compares \<open>client_version\<close> with the
  version it has read, not with the stored one: it is accepted and stores
  \<open>client_version\<close> whenever that exceeds the version read.
\<close>

theorem version_strictly_increases:
  assumes "map_of (records_collection w) rid = Some d"
  shows "sorted_wrt (<) (version d # version_trace rid ops w)
       \<and> distinct (version d # version_trace rid ops w)
       \<and> (\<exists>d'. map_of (records_collection (run ops w)) rid = Some d'
               \<and> version d' = last (version d # version_trace rid ops w))
       \<and> (map_of (records_collection w1) rid = Some d1 \<and> user_id d1 = uid \<and> version d0 < cv
            \<longrightarrow> fst (update_after_read rid uid p cv t1 t2 (rid, d0) w1)
                  = Inr (Some (Record (rid, d1\<lparr>data := data d0 ++ p, version := cv,
                        updated_at := t1, sync_status := ''synced''\<rparr>)))
                \<and> map_option version (map_of (records_collection
                     (snd (update_after_read rid uid p cv t1 t2 (rid, d0) w1))) rid) = Some cv)"
proof -
  have main: "sorted_wrt (<) (version d # version_trace rid ops w)
       \<and> (\<exists>d'. map_of (records_collection (run ops w)) rid = Some d'
               \<and> version d' = last (version d # version_trace rid ops w))"
    using assms
  proof (induction ops arbitrary: w d)
    case Nil
    then show ?case by simp
  next
    case (Cons x xs)
    from step_version[OF Cons.prems, of x]
    show ?case
    proof
      assume a: "accepted_version rid x w = None
            \<and> (\<exists>d'. map_of (records_collection (step x w)) rid = Some d'
                    \<and> version d' = version d)"
      then obtain d' where d': "map_of (records_collection (step x w)) rid = Some d'"
          "version d' = version d" by blast
      from Cons.IH[OF d'(1)] a d'(2) show ?case by simp
    next
      assume "\<exists>v d'. accepted_version rid x w = Some v \<and> version d < v
            \<and> map_of (records_collection (step x w)) rid = Some d' \<and> version d' = v"
      then obtain v d' where a: "accepted_version rid x w = Some v" "version d < v"
          and d': "map_of (records_collection (step x w)) rid = Some d'" "version d' = v"
        by blast
      from Cons.IH[OF d'(1)] a d'(2) show ?case by auto
    qed
  qed
  moreover have "distinct (version d # version_trace rid ops w)"
    using main strict_sorted_iff[of "version d # version_trace rid ops w"] by blast
  moreover have "map_of (records_collection w1) rid = Some d1 \<and> user_id d1 = uid
            \<and> version d0 < cv
            \<longrightarrow> fst (update_after_read rid uid p cv t1 t2 (rid, d0) w1)
                  = Inr (Some (Record (rid, d1\<lparr>data := data d0 ++ p, version := cv,
                        updated_at := t1, sync_status := ''synced''\<rparr>)))
                \<and> map_option version (map_of (records_collection
                     (snd (update_after_read rid uid p cv t1 t2 (rid, d0) w1))) rid) = Some cv"
  proof
    assume a: "map_of (records_collection w1) rid = Some d1 \<and> user_id d1 = uid
            \<and> version d0 < cv"
    then have m: "map_of (records_collection w1) rid = Some d1" and o: "user_id d1 = uid"
      and lt: "version d0 < cv" by simp_all
    show "fst (update_after_read rid uid p cv t1 t2 (rid, d0) w1)
                  = Inr (Some (Record (rid, d1\<lparr>data := data d0 ++ p, version := cv,
                        updated_at := t1, sync_status := ''synced''\<rparr>)))
                \<and> map_option version (map_of (records_collection
                     (snd (update_after_read rid uid p cv t1 t2 (rid, d0) w1))) rid) = Some cv"
      by (simp add: update_after_read_accept[OF m o lt] update_conv')
  qed
  ultimately show ?thesis using main by (intro conjI) blast+
qed

theorem version_strictly_increases_witness:
  "version_trace ''r1'' example_ops alice_world = [2, 3, 5]
   \<and> sorted_wrt (<) (1 # version_trace ''r1'' example_ops alice_world)
   \<and> (\<exists>d'. map_of (records_collection (run example_ops alice_world)) ''r1'' = Some d'
           \<and> version d' = 5)
   \<and> map_option version (map_of (records_collection
        (snd (update_after_read ''r1'' ''alice'' Map.empty 2 810 811 (''r1'', alice_doc)
           alice_world_v3))) ''r1'') = Some 2"
proof -
  have h: "map_of (records_collection alice_world) ''r1'' = Some alice_doc"
    by (simp add: alice_world_def)
  have tr: "version_trace ''r1'' example_ops alice_world = [2, 3, 5]"
    by (simp add: example_ops_def alice_world_def alice_doc_def new_record_data_def
        update_record_def resolve_conflict_def delete_record_def get_record_def doc_get_def
        doc_update_def create_audit_entry_def apply_update_fields_def Let_def)
  have h3: "map_of (records_collection alice_world_v3) ''r1'' = Some (alice_doc\<lparr>version := 3\<rparr>)
            \<and> user_id (alice_doc\<lparr>version := 3\<rparr>) = ''alice'' \<and> version alice_doc < 2"
    by (simp add: alice_world_v3_def alice_doc_fields)
  note t = version_strictly_increases
      [OF h, where ops = example_ops and ?w1.0 = alice_world_v3
         and ?d1.0 = "alice_doc\<lparr>version := 3\<rparr>" and uid = "''alice''" and ?d0.0 = alice_doc
         and cv = 2 and p = Map.empty and ?t1.0 = 810 and ?t2.0 = 811]
  from t have a: "sorted_wrt (<) (version alice_doc # version_trace ''r1'' example_ops alice_world)"
    by (rule conjunct1)
  from t have b: "\<exists>d'. map_of (records_collection (run example_ops alice_world)) ''r1'' = Some d'
               \<and> version d' = last (version alice_doc
                    # version_trace ''r1'' example_ops alice_world)"
    by blast
  from t h3 have c: "map_option version (map_of (records_collection
        (snd (update_after_read ''r1'' ''alice'' Map.empty 2 810 811 (''r1'', alice_doc)
           alice_world_v3))) ''r1'') = Some 2"
    by blast
  show ?thesis
    using a b c by (simp add: tr alice_doc_fields)
qed

section \<open>Two updates of one record\<close>

text \<open>
  C6, counterexample. Two update calls on Alice's record (stored version 1), each with
  \<open>client_version = 2\<close>. Both coroutines read the record before either writes; each then
  decides on the record it has read. Both calls return the updated record, none a
  conflict, and the second write replaces the payload merge of the first.
\<close>

theorem interleaved_updates_both_accepted:
  "get_record ''r1'' ''alice'' alice_world = Some (''r1'', alice_doc)
   \<and> version alice_doc + 1 = 2
   \<and> fst (update_after_read ''r1'' ''alice'' [''a'' \<mapsto> JInt 1] 2 700 701 (''r1'', alice_doc)
            alice_world)
       = Inr (Some (Record (''r1'',
           alice_doc\<lparr>data := [''title'' \<mapsto> JStr ''flu'', ''a'' \<mapsto> JInt 1], version := 2,
             updated_at := 700, sync_status := ''synced''\<rparr>)))
   \<and> fst (update_after_read ''r1'' ''alice'' [''b'' \<mapsto> JInt 2] 2 702 703 (''r1'', alice_doc)
            (snd (update_after_read ''r1'' ''alice'' [''a'' \<mapsto> JInt 1] 2 700 701
                    (''r1'', alice_doc) alice_world)))
       = Inr (Some (Record (''r1'',
           alice_doc\<lparr>data := [''title'' \<mapsto> JStr ''flu'', ''b'' \<mapsto> JInt 2], version := 2,
             updated_at := 702, sync_status := ''synced''\<rparr>)))"
  by (simp add: alice_world_def alice_doc_def new_record_data_def
        update_after_read_def get_record_def doc_get_def
        doc_update_def create_audit_entry_def apply_update_fields_def Let_def)

text \<open>
  C6, as the code has it. The read of the stored version (\<^verbatim>\<open>get_record\<close>) and the write
  are separate store calls: \<^verbatim>\<open>update_record\<close> is \<^verbatim>\<open>get_record\<close> followed by
  \<^verbatim>\<open>update_after_read\<close>. Of two update calls on an owned record with
  \<open>client_version = server_version + 1\<close> that run one after the other, the first is
  accepted and the second gets a conflict whose \<open>server_version\<close> is the version the
  first has written, and changes nothing. When both calls have read the record before
  either writes, both are accepted and the record holds the second merge only.
\<close>

theorem sequential_updates_one_winner:
  assumes "map_of (records_collection w) rid = Some d" and "user_id d = uid"
  shows "(let dA = d\<lparr>data := data d ++ pA, version := version d + 1, updated_at := tA1,
                     sync_status := ''synced''\<rparr>;
              resA = update_record rid uid pA (version d + 1) tA1 tA2 w;
              resB = update_record rid uid pB (version d + 1) tB1 tB2 (snd resA)
          in fst resA = Inr (Some (Record (rid, dA)))
           \<and> fst resB = Inr (Some (Conflict rid (version d + 1) (version d + 1) (rid, dA)))
           \<and> snd resB = snd resA)
       \<and> (let dA = d\<lparr>data := data d ++ pA, version := version d + 1, updated_at := tA1,
                     sync_status := ''synced''\<rparr>;
              dB = d\<lparr>data := data d ++ pB, version := version d + 1, updated_at := tB1,
                     sync_status := ''synced''\<rparr>;
              resA = update_after_read rid uid pA (version d + 1) tA1 tA2 (rid, d) w;
              resB = update_after_read rid uid pB (version d + 1) tB1 tB2 (rid, d) (snd resA)
          in get_record rid uid w = Some (rid, d)
           \<and> fst resA = Inr (Some (Record (rid, dA)))
           \<and> fst resB = Inr (Some (Record (rid, dB)))
           \<and> map_of (records_collection (snd resB)) rid = Some dB)
       \<and> update_record rid uid p cv t1 t2 w =
           (case get_record rid uid w of
              None \<Rightarrow> (Inr None, w)
            | Some record \<Rightarrow> update_after_read rid uid p cv t1 t2 record w)"
proof -
  let ?dA = "d\<lparr>data := data d ++ pA, version := version d + 1, updated_at := tA1,
                     sync_status := ''synced''\<rparr>"
  have lt: "version d < version d + 1" by simp
  note eA = update_record_accept[OF assms lt, of pA tA1 tA2]
  have mA: "map_of (records_collection (snd (update_record rid uid pA (version d + 1) tA1 tA2 w)))
              rid = Some ?dA"
    by (simp add: eA update_conv')
  have uA: "user_id ?dA = uid" using assms(2) by simp
  have le: "version d + 1 \<le> version ?dA" by simp
  note eB = update_record_reject[OF mA uA le, of pB tB1 tB2]
  have seq: "(let dA = ?dA;
              resA = update_record rid uid pA (version d + 1) tA1 tA2 w;
              resB = update_record rid uid pB (version d + 1) tB1 tB2 (snd resA)
          in fst resA = Inr (Some (Record (rid, dA)))
           \<and> fst resB = Inr (Some (Conflict rid (version d + 1) (version d + 1) (rid, dA)))
           \<and> snd resB = snd resA)"
    unfolding Let_def using eB by (simp add: eA)
  note iA = update_after_read_accept[OF assms lt, of pA tA1 tA2]
  have mI: "map_of (records_collection
               (snd (update_after_read rid uid pA (version d + 1) tA1 tA2 (rid, d) w))) rid
              = Some ?dA"
    by (simp add: iA update_conv')
  note iB = update_after_read_accept[OF mI uA lt, of pB tB1 tB2]
  have inter: "(let dA = ?dA;
              dB = d\<lparr>data := data d ++ pB, version := version d + 1, updated_at := tB1,
                     sync_status := ''synced''\<rparr>;
              resA = update_after_read rid uid pA (version d + 1) tA1 tA2 (rid, d) w;
              resB = update_after_read rid uid pB (version d + 1) tB1 tB2 (rid, d) (snd resA)
          in get_record rid uid w = Some (rid, d)
           \<and> fst resA = Inr (Some (Record (rid, dA)))
           \<and> fst resB = Inr (Some (Record (rid, dB)))
           \<and> map_of (records_collection (snd resB)) rid = Some dB)"
    unfolding Let_def using get_record_owned[OF assms] iB
    by (simp add: iA update_conv')
  have phases: "update_record rid uid p cv t1 t2 w =
           (case get_record rid uid w of
              None \<Rightarrow> (Inr None, w)
            | Some record \<Rightarrow> update_after_read rid uid p cv t1 t2 record w)"
    by (rule update_record_phases)
  from seq inter phases show ?thesis by (intro conjI)
qed

theorem sequential_updates_one_winner_witness:
  "fst (update_record ''r1'' ''alice'' Map.empty 2 700 701 alice_world)
     = Inr (Some (Record (''r1'',
         alice_doc\<lparr>data := [''title'' \<mapsto> JStr ''flu''], version := 2, updated_at := 700,
           sync_status := ''synced''\<rparr>)))
   \<and> fst (update_record ''r1'' ''alice'' Map.empty 2 702 703
        (snd (update_record ''r1'' ''alice'' Map.empty 2 700 701 alice_world)))
     = Inr (Some (Conflict ''r1'' 2 2 (''r1'',
         alice_doc\<lparr>data := [''title'' \<mapsto> JStr ''flu''], version := 2, updated_at := 700,
           sync_status := ''synced''\<rparr>)))"
proof -
  have h: "map_of (records_collection alice_world) ''r1'' = Some alice_doc"
    by (simp add: alice_world_def)
  have u: "user_id alice_doc = ''alice''" by (simp add: alice_doc_fields)
  show ?thesis
    using sequential_updates_one_winner [OF h u, where pA = Map.empty and pB = Map.empty
        and ?tA1.0 = 700 and ?tA2.0 = 701 and ?tB1.0 = 702 and ?tB2.0 = 703,
        THEN conjunct1]
    by (simp add: Let_def alice_doc_fields)
qed

section \<open>Soft delete\<close>

text \<open>
  C8, the code at a failing input. A soft delete of an existing record of the caller sets
  \<open>is_deleted\<close>, sets \<open>deleted_at\<close> and replaces \<open>updated_at\<close>, and changes no other
  document; \<^verbatim>\<open>get_record\<close> with the record's identifier still returns it, and no page
  that the query of \<^verbatim>\<open>list_records\<close> collects with \<open>include_deleted = False\<close> holds the
  record. \<^verbatim>\<open>list_records\<close> itself returns no result: it raises \<^verbatim>\<open>TypeError\<close> when it
  counts the total, for every owner, type filter, page and page size.
\<close>

theorem soft_delete_get_and_list:
  assumes "wf_world w"
    and "map_of (records_collection w) rid = Some d" and "user_id d = uid"
  shows "(let d' = d\<lparr>is_deleted := True, deleted_at := Some t_deleted,
                     updated_at := t_updated\<rparr>;
              res = delete_record rid uid True t_deleted t_updated t_audit w
          in fst res = Inr True
           \<and> map_of (records_collection (snd res))
               = (map_of (records_collection w))(rid \<mapsto> d')
           \<and> is_deleted d' \<and> deleted_at d' = Some t_deleted \<and> updated_at d' = t_updated
           \<and> get_record rid uid (snd res) = Some (rid, d')
           \<and> (\<forall>u rt pg ps. rid \<notin> fst ` set (list_page u rt pg ps False (snd res)))
           \<and> (\<forall>u rt pg ps incl. list_records u rt pg ps incl (snd res) = Inl TypeError))"
proof -
  let ?d' = "d\<lparr>is_deleted := True, deleted_at := Some t_deleted, updated_at := t_updated\<rparr>"
  let ?w' = "snd (delete_record rid uid True t_deleted t_updated t_audit w)"
  note eq = delete_record_soft_owned[OF assms(2,3), of t_deleted t_updated t_audit]
  have m: "map_of (records_collection ?w') = (map_of (records_collection w))(rid \<mapsto> ?d')"
    by (simp add: eq update_conv')
  have dist: "distinct (map fst (records_collection ?w'))"
    using assms(1) by (simp add: eq wf_world_def distinct_update)
  have m1: "map_of (records_collection ?w') rid = Some ?d'" by (simp add: m)
  have ex: "\<forall>u rt pg ps. rid \<notin> fst ` set (list_page u rt pg ps False ?w')"
    using list_page_excludes_deleted[OF dist m1] by simp
  have g: "get_record rid uid ?w' = Some (rid, ?d')"
    using get_record_owned[OF m1] assms(3) by simp
  show ?thesis
    unfolding Let_def using m ex g by (simp add: eq list_records_raises)
qed

theorem soft_delete_get_and_list_witness:
  "fst (delete_record ''r1'' ''alice'' True 500 501 502 alice_world) = Inr True
   \<and> get_record ''r1'' ''alice'' (snd (delete_record ''r1'' ''alice'' True 500 501 502 alice_world))
       = Some (''r1'', alice_doc\<lparr>is_deleted := True, deleted_at := Some 500, updated_at := 501\<rparr>)
   \<and> list_records ''alice'' None 1 20 False
        (snd (delete_record ''r1'' ''alice'' True 500 501 502 alice_world)) = Inl TypeError"
proof -
  have wf: "wf_world alice_world" by (simp add: wf_world_def alice_world_def)
  have h: "map_of (records_collection alice_world) ''r1'' = Some alice_doc"
    by (simp add: alice_world_def)
  have u: "user_id alice_doc = ''alice''" by (simp add: alice_doc_fields)
  show ?thesis
    using soft_delete_get_and_list
        [OF wf h u, where t_deleted = 500 and t_updated = 501 and t_audit = 502]
    by (simp add: Let_def)
qed

text \<open>
  C10. A soft-deleted record stays mutable: \<^verbatim>\<open>get_record\<close> returns it to its owner, an
  update with a greater \<open>client_version\<close> and a conflict resolution are both accepted, and
  the stored record keeps \<open>is_deleted = True\<close> after each.
\<close>

theorem soft_deleted_record_stays_mutable:
  assumes "map_of (records_collection w) rid = Some d" and "user_id d = uid"
    and "is_deleted d"
  shows "get_record rid uid w = Some (rid, d)
       \<and> (version d < cv \<longrightarrow>
            (\<exists>d'. update_record rid uid patch cv t1 t2 w
                     = (Inr (Some (Record (rid, d'))), snd (update_record rid uid patch cv t1 t2 w))
                 \<and> map_of (records_collection (snd (update_record rid uid patch cv t1 t2 w))) rid
                     = Some d'
                 \<and> version d' = cv \<and> is_deleted d'))
       \<and> (record_id req = rid \<longrightarrow>
            (\<exists>d'. resolve_conflict req uid t3 t4 t5 w
                     = (Inr (Some (rid, d')), snd (resolve_conflict req uid t3 t4 t5 w))
                 \<and> map_of (records_collection (snd (resolve_conflict req uid t3 t4 t5 w))) rid
                     = Some d'
                 \<and> version d' = version d + 1 \<and> is_deleted d'))"
proof -
  have g: "get_record rid uid w = Some (rid, d)"
    using assms(1,2) by (rule get_record_owned)
  have up: "version d < cv \<longrightarrow>
            (\<exists>d'. update_record rid uid patch cv t1 t2 w
                     = (Inr (Some (Record (rid, d'))), snd (update_record rid uid patch cv t1 t2 w))
                 \<and> map_of (records_collection (snd (update_record rid uid patch cv t1 t2 w))) rid
                     = Some d'
                 \<and> version d' = cv \<and> is_deleted d')"
  proof
    assume lt: "version d < cv"
    show "\<exists>d'. update_record rid uid patch cv t1 t2 w
                     = (Inr (Some (Record (rid, d'))), snd (update_record rid uid patch cv t1 t2 w))
                 \<and> map_of (records_collection (snd (update_record rid uid patch cv t1 t2 w))) rid
                     = Some d'
                 \<and> version d' = cv \<and> is_deleted d'"
      using assms(3)
      by (simp add: update_record_accept[OF assms(1,2) lt] update_conv')
  qed
  have rs: "record_id req = rid \<longrightarrow>
            (\<exists>d'. resolve_conflict req uid t3 t4 t5 w
                     = (Inr (Some (rid, d')), snd (resolve_conflict req uid t3 t4 t5 w))
                 \<and> map_of (records_collection (snd (resolve_conflict req uid t3 t4 t5 w))) rid
                     = Some d'
                 \<and> version d' = version d + 1 \<and> is_deleted d')"
  proof
    assume r: "record_id req = rid"
    have m: "map_of (records_collection w) (record_id req) = Some d"
      using assms(1) r by simp
    show "\<exists>d'. resolve_conflict req uid t3 t4 t5 w
                     = (Inr (Some (rid, d')), snd (resolve_conflict req uid t3 t4 t5 w))
                 \<and> map_of (records_collection (snd (resolve_conflict req uid t3 t4 t5 w))) rid
                     = Some d'
                 \<and> version d' = version d + 1 \<and> is_deleted d'"
      using assms(3) r
      by (simp add: resolve_conflict_owned[OF m assms(2)] update_conv')
  qed
  from g up rs show ?thesis by blast
qed

theorem soft_deleted_record_stays_mutable_witness:
  "(\<exists>d'. fst (update_record ''r1'' ''alice'' Map.empty 2 600 601 alice_world_deleted)
            = Inr (Some (Record (''r1'', d'))) \<and> is_deleted d')
   \<and> (\<exists>d'. fst (resolve_conflict \<lparr>record_id = ''r1'', chosen_version = 1,
                   resolved_data = Map.empty\<rparr> ''alice'' 600 601 602 alice_world_deleted)
            = Inr (Some (''r1'', d')) \<and> is_deleted d')"
proof -
  have h: "map_of (records_collection alice_world_deleted) ''r1''
             = Some (alice_doc\<lparr>is_deleted := True, deleted_at := Some 150\<rparr>)"
    by (simp add: alice_world_deleted_def)
  have u: "user_id (alice_doc\<lparr>is_deleted := True, deleted_at := Some 150\<rparr>) = ''alice''"
    by (simp add: alice_doc_fields)
  have del: "is_deleted (alice_doc\<lparr>is_deleted := True, deleted_at := Some 150\<rparr>)"
    by simp
  have r: "record_id \<lparr>record_id = ''r1'', chosen_version = 1, resolved_data = Map.empty\<rparr>
             = ''r1''" by simp
  have v: "version (alice_doc\<lparr>is_deleted := True, deleted_at := Some 150\<rparr>) < 2"
    by (simp add: alice_doc_fields)
  show ?thesis
    using soft_deleted_record_stays_mutable
        [OF h u del, where cv = 2 and patch = Map.empty and ?t1.0 = 600 and ?t2.0 = 601
          and req = "\<lparr>record_id = ''r1'', chosen_version = 1, resolved_data = Map.empty\<rparr>"
          and ?t3.0 = 600 and ?t4.0 = 601 and ?t5.0 = 602] r v
    by (metis fst_conv)
qed

section \<open>The version of a created record\<close>

text \<open>
  C9, the code at a failing input. A create request with a valid title and
  \<open>client_version = 0\<close> passes the validation of \<^verbatim>\<open>MedicalHistoryCreate\<close>; the route
  answers 201, the record is stored with version 0 and an audit entry is written. The
  update route rejects \<open>client_version = 0\<close> with status 422 and leaves the world as it is.
\<close>

theorem create_route_accepts_version_zero:
  "MedicalHistoryCreate_valid zero_version_request
   \<and> client_version zero_version_request = 0
   \<and> fst (create_medical_history (\<lambda>t. []) zero_version_request ''alice'' ''r1'' 100 100 101
        empty_world)
     = Http201 ''r1'' (new_record_data ''alice'' MEDICAL_HISTORY
          (medical_history_data (\<lambda>t. []) zero_version_request) 0 (Some ''alice'') 100 100)
   \<and> map_option version (map_of (records_collection
        (snd (create_medical_history (\<lambda>t. []) zero_version_request ''alice'' ''r1'' 100 100 101
           empty_world))) ''r1'') = Some 0
   \<and> length (audit_collection
        (snd (create_medical_history (\<lambda>t. []) zero_version_request ''alice'' ''r1'' 100 100 101
           empty_world))) = 1
   \<and> update_record_route ''r1'' Map.empty 0 ''alice'' 200 201 alice_world = (Upd422, alice_world)"
  by (simp add: MedicalHistoryCreate_valid_def zero_version_request_def create_medical_history_def
      create_record_def do_create_def Let_def doc_set_def create_audit_entry_def
      new_record_data_def empty_world_def update_record_route_def)

end
